theory Spec2Isabelle
  imports Main
begin

section \<open>Error taxonomy (core/error.hpp)\<close>

text \<open>
  \<^verbatim>\<open>enum class errc : std::uint8_t { ok = 0, invalid_argument, ..., not_supported }\<close>.
  The enumerators are numbered consecutively from zero.
\<close>

datatype errc =
  ok | invalid_argument | not_ready | timeout | canceled | closed
  | overflow | stopped | queue_full | rejected | not_supported

fun errc_value :: "errc \<Rightarrow> int" where
  "errc_value ok = 0"
| "errc_value invalid_argument = 1"
| "errc_value not_ready = 2"
| "errc_value timeout = 3"
| "errc_value canceled = 4"
| "errc_value closed = 5"
| "errc_value overflow = 6"
| "errc_value stopped = 7"
| "errc_value queue_full = 8"
| "errc_value rejected = 9"
| "errc_value not_supported = 10"

text \<open>
  A \<^verbatim>\<open>std::error_code\<close> is an integer and a category. The category of this library is
  the singleton \<^verbatim>\<open>category()\<close> (its name is "async" in the \<^verbatim>\<open>vix::async\<close> headers and
  "cnerium" in the \<^verbatim>\<open>cnerium\<close> headers, which are otherwise the same text); codes reported
  by the reactor belong to categories of other libraries.
\<close>

datatype error_category = async_category | system_category | foreign_category string

datatype error_code = error_code int error_category

text \<open>\<^verbatim>\<open>make_error_code(errc e) { return {static_cast<int>(e), category()}; }\<close>\<close>

definition make_error_code :: "errc \<Rightarrow> error_code" where
  "make_error_code e = error_code (errc_value e) async_category"

text \<open>\<^verbatim>\<open>cancelled_ec() { return make_error_code(errc::canceled); }\<close> (core/cancel.hpp)\<close>

definition cancelled_ec :: error_code where
  "cancelled_ec = make_error_code canceled"

text \<open>The contextual conversion \<^verbatim>\<open>if (ec)\<close>: an error code is set when its value is not zero.\<close>

fun ec_set :: "error_code \<Rightarrow> bool" where
  "ec_set (error_code v c) = (v \<noteq> 0)"

text \<open>
  What a C++ \<^verbatim>\<open>throw\<close> carries: a \<^verbatim>\<open>std::system_error\<close> built from an error code, or
  any other exception object (of a type \<open>'x\<close> chosen by user code). A
  \<^verbatim>\<open>std::exception_ptr\<close> is an optional exception: \<open>None\<close> is the null pointer.
\<close>

datatype 'x exn = system_error error_code | user_exception 'x

type_synonym 'x exception_ptr = "'x exn option"

section \<open>Coroutine frames and the task promise (core/task.hpp)\<close>

text \<open>
  A \<^verbatim>\<open>std::coroutine_handle<>\<close> is the address of a coroutine frame, or null.
\<close>

type_synonym coroutine_handle = "nat option"

text \<open>
  \<^verbatim>\<open>promise_common\<close> with the \<^verbatim>\<open>std::optional<T> value\<close> of \<^verbatim>\<open>promise_value<T>\<close>
  (for \<^verbatim>\<open>task<void>\<close> the result type is \<open>unit\<close> and the slot is never read).
  The field \<^verbatim>\<open>value\<close> is called \<open>stored_value\<close> here.
\<close>

record ('x, 't) promise_value =
  continuation :: coroutine_handle
  exception :: "'x exception_ptr"
  detached :: bool
  stored_value :: "'t option"

text \<open>The promise of a coroutine that has just been created: all members default-initialised.\<close>

definition promise_init :: "('x, 't) promise_value" where
  "promise_init = \<lparr>continuation = None, exception = None, detached = False, stored_value = None\<rparr>"

text \<open>
  The coroutine frames that are alive, by address; each frame holds its promise.
  \<^verbatim>\<open>h.destroy()\<close> frees the frame: its address leaves the map.
\<close>

type_synonym ('x, 't) frames = "nat \<rightharpoonup> ('x, 't) promise_value"

definition coroutine_destroy :: "nat \<Rightarrow> ('x, 't) frames \<Rightarrow> ('x, 't) frames" where
  "coroutine_destroy h fr = fr(h := None)"

text \<open>
  What \<^verbatim>\<open>final_awaiter::await_suspend\<close> returns: the coroutine the runtime resumes next,
  either a real handle or \<^verbatim>\<open>std::noop_coroutine()\<close>, which only returns to the resumer.
\<close>

datatype transfer = resume_next nat | noop_coroutine

text \<open>
  \<^verbatim>\<open>
  auto &p = h.promise();
  if (p.continuation) return p.continuation;
  if (p.detached) h.destroy();
  return std::noop_coroutine();
  \<close>
  The handle \<open>h\<close> is the finishing coroutine itself. The result is \<open>None\<close> when no frame
  lives at \<open>h\<close> (the C++ has no defined behaviour there).
\<close>

definition final_await_suspend ::
  "nat \<Rightarrow> ('x, 't) frames \<Rightarrow> (transfer \<times> ('x, 't) frames) option" where
  "final_await_suspend h fr =
     (case fr h of
        None \<Rightarrow> None
      | Some p \<Rightarrow>
          (case continuation p of
             Some c \<Rightarrow> Some (resume_next c, fr)
           | None \<Rightarrow>
               if detached p then Some (noop_coroutine, coroutine_destroy h fr)
               else Some (noop_coroutine, fr)))"

text \<open>\<^verbatim>\<open>void unhandled_exception() noexcept { exception = std::current_exception(); }\<close>\<close>

definition unhandled_exception :: "'x exn \<Rightarrow> ('x, 't) promise_value \<Rightarrow> ('x, 't) promise_value" where
  "unhandled_exception e p = p\<lparr>exception := Some e\<rparr>"

text \<open>\<^verbatim>\<open>void return_value(U &&v) { value.emplace(std::forward<U>(v)); }\<close>\<close>

definition return_value :: "'t \<Rightarrow> ('x, 't) promise_value \<Rightarrow> ('x, 't) promise_value" where
  "return_value v p = p\<lparr>stored_value := Some v\<rparr>"

text \<open>
  The ways an \<^verbatim>\<open>await_resume\<close> of this library can end: an exception leaves the function
  at the await site (\<^verbatim>\<open>throw\<close> or \<^verbatim>\<open>std::rethrow_exception\<close>); or it returns
  \<^verbatim>\<open>std::move(*value)\<close>, an xvalue that designates the object held by the optional (the
  function itself constructs no copy); or the optional it dereferences is empty (where
  \<^verbatim>\<open>task_awaiter\<close> has \<^verbatim>\<open>assert(p.value.has_value())\<close>, and C++ defines no result).
\<close>

datatype ('x, 't) resumed = thrown "'x exn" | xvalue 't | no_value

text \<open>
  \<^verbatim>\<open>
  auto &p = h.promise();
  if (p.exception) std::rethrow_exception(p.exception);
  if constexpr (void) return;
  else { assert(p.value.has_value()); return std::move(*p.value); }
  \<close>
\<close>

definition await_resume :: "('x, 't) promise_value \<Rightarrow> ('x, 't) resumed" where
  "await_resume p =
     (case exception p of
        Some e \<Rightarrow> thrown e
      | None \<Rightarrow> (case stored_value p of None \<Rightarrow> no_value | Some v \<Rightarrow> xvalue v))"

text \<open>The same function for \<^verbatim>\<open>promise_value<void>\<close>: nothing is read after the exception test.\<close>

definition await_resume_void :: "('x, unit) promise_value \<Rightarrow> ('x, unit) resumed" where
  "await_resume_void p =
     (case exception p of Some e \<Rightarrow> thrown e | None \<Rightarrow> xvalue ())"

text \<open>
  \<^verbatim>\<open>task_awaiter::await_suspend(awaiting) { h.promise().continuation = awaiting; return h; }\<close>:
  the awaiting coroutine is recorded in the promise of the awaited frame \<open>h\<close>, and \<open>h\<close> is
  resumed next. The result is \<open>None\<close> when no frame lives at \<open>h\<close>.
\<close>

definition task_await_suspend ::
  "nat \<Rightarrow> coroutine_handle \<Rightarrow> ('x, 't) frames \<Rightarrow> (transfer \<times> ('x, 't) frames) option" where
  "task_await_suspend h awaiting fr =
     (case fr h of
        None \<Rightarrow> None
      | Some p \<Rightarrow> Some (resume_next h, fr(h \<mapsto> p\<lparr>continuation := awaiting\<rparr>)))"

text \<open>
  How the body of a coroutine ends, and what the compiler-generated code then calls on the
  promise: \<^verbatim>\<open>co_return v\<close> calls \<^verbatim>\<open>return_value(v)\<close>, an exception that leaves the
  body calls \<^verbatim>\<open>unhandled_exception()\<close>. Either way the coroutine then awaits
  \<^verbatim>\<open>final_suspend()\<close>.
\<close>

datatype ('x, 't) body_exit = co_return 't | uncaught "'x exn"

fun finish_body :: "('x, 't) body_exit \<Rightarrow> ('x, 't) promise_value \<Rightarrow> ('x, 't) promise_value" where
  "finish_body (co_return v) p = return_value v p"
| "finish_body (uncaught e) p = unhandled_exception e p"

definition complete ::
  "nat \<Rightarrow> ('x, 't) body_exit \<Rightarrow> ('x, 't) frames \<Rightarrow> (transfer \<times> ('x, 't) frames) option" where
  "complete h b fr =
     (case fr h of
        None \<Rightarrow> None
      | Some p \<Rightarrow> final_await_suspend h (fr(h \<mapsto> finish_body b p)))"

section \<open>The scheduler (core/scheduler.hpp)\<close>

text \<open>
  A job of the queue owns a type-erased callable. \<^verbatim>\<open>post(Fn)\<close> stores any callable;
  \<^verbatim>\<open>post(std::coroutine_handle<> h)\<close> stores the lambda \<^verbatim>\<open>[h]{ if (h) h.resume(); }\<close>.
\<close>

datatype 'f job = callable 'f | resume_handle coroutine_handle

text \<open>The members \<^verbatim>\<open>q_\<close>, \<^verbatim>\<open>stop_requested_\<close> and \<^verbatim>\<open>running_\<close>.\<close>

record 'f scheduler =
  q :: "'f job list"
  stop_requested :: bool
  running :: bool

definition scheduler_init :: "'f scheduler" where
  "scheduler_init = \<lparr>q = [], stop_requested = False, running = False\<rparr>"

text \<open>\<^verbatim>\<open>{ lock; q_.emplace_back(job{fn}); } cv_.notify_one();\<close>\<close>

definition post :: "'f job \<Rightarrow> 'f scheduler \<Rightarrow> 'f scheduler" where
  "post j s = s\<lparr>q := q s @ [j]\<rparr>"

definition post_handle :: "coroutine_handle \<Rightarrow> 'f scheduler \<Rightarrow> 'f scheduler" where
  "post_handle h s = post (resume_handle h) s"

text \<open>\<^verbatim>\<open>{ lock; stop_requested_ = true; } cv_.notify_all();\<close>\<close>

definition stop :: "'f scheduler \<Rightarrow> 'f scheduler" where
  "stop s = s\<lparr>stop_requested := True\<rparr>"

definition is_running :: "'f scheduler \<Rightarrow> bool" where
  "is_running s = running s"

definition pending :: "'f scheduler \<Rightarrow> nat" where
  "pending s = length (q s)"

text \<open>
  The critical section of one iteration of the loop of \<^verbatim>\<open>run()\<close>:
  \<^verbatim>\<open>
  cv_.wait(lock, [&]{ return stop_requested_ || !q_.empty(); });
  if (!q_.empty()) { j = std::move(q_.front()); q_.pop_front(); }
  else if (stop_requested_) break;
  \<close>
  While the predicate of the wait is false the loop thread sleeps (\<open>blocked\<close>). When
  neither branch applies the default-constructed job stays empty and nothing is executed
  (\<open>empty_job\<close>).
\<close>

datatype 'f fetched = blocked | popped "'f job" | break_loop | empty_job

definition run_fetch :: "'f scheduler \<Rightarrow> 'f fetched \<times> 'f scheduler" where
  "run_fetch s =
     (if \<not> (stop_requested s \<or> q s \<noteq> []) then (blocked, s)
      else (case q s of
              j # rest \<Rightarrow> (popped j, s\<lparr>q := rest\<rparr>)
            | [] \<Rightarrow> if stop_requested s then (break_loop, s) else (empty_job, s)))"

text \<open>
  The scheduler is shared between threads; every access to the queue and to the stop flag
  is made under the mutex \<^verbatim>\<open>m_\<close>. An execution is therefore the sequence of these critical
  sections in the order in which the lock was taken: a post (by any thread, also by a
  running job), a stop request, the entry of the loop thread into \<^verbatim>\<open>run()\<close>
  (\<^verbatim>\<open>running_ = true\<close>), and one iteration of its loop.

  After the critical section the loop thread executes the popped job, outside the lock:
  \<^verbatim>\<open>if (j.fn) j.fn();\<close>. It does so before it starts the next iteration, so the jobs are
  executed in the order in which they were popped; that order is recorded in \<open>executed\<close>.
  The call is not enclosed in any \<^verbatim>\<open>try\<close> block: a job that returns lets the loop go on,
  and an exception thrown by the job leaves \<^verbatim>\<open>run()\<close> at once, with the rest of the queue
  still pending and \<^verbatim>\<open>running_\<close> still true (the line \<^verbatim>\<open>running_ = false\<close> after the
  loop is not reached). Whether the loop thread is inside \<^verbatim>\<open>run()\<close> is \<open>in_run\<close>.
\<close>

datatype job_result = job_returns | job_throws

datatype 'f event = ev_post "'f job" | ev_stop | ev_run | ev_iterate job_result

record 'f system =
  sched :: "'f scheduler"
  in_run :: bool
  executed :: "'f job list"

definition system_init :: "'f system" where
  "system_init = \<lparr>sched = scheduler_init, in_run = False, executed = []\<rparr>"

fun step :: "'f event \<Rightarrow> 'f system \<Rightarrow> 'f system" where
  "step (ev_post j) st = st\<lparr>sched := post j (sched st)\<rparr>"
| "step ev_stop st = st\<lparr>sched := stop (sched st)\<rparr>"
| "step ev_run st = st\<lparr>sched := (sched st)\<lparr>running := True\<rparr>, in_run := True\<rparr>"
| "step (ev_iterate r) st =
     (if \<not> in_run st then st
      else (case run_fetch (sched st) of
              (blocked, s') \<Rightarrow> st
            | (popped j, s') \<Rightarrow>
                (case r of
                   job_returns \<Rightarrow> st\<lparr>sched := s', executed := executed st @ [j]\<rparr>
                 | job_throws \<Rightarrow> st\<lparr>sched := s', in_run := False, executed := executed st @ [j]\<rparr>)
            | (break_loop, s') \<Rightarrow> st\<lparr>sched := s'\<lparr>running := False\<rparr>, in_run := False\<rparr>
            | (empty_job, s') \<Rightarrow> st\<lparr>sched := s'\<rparr>))"

fun run_events :: "'f event list \<Rightarrow> 'f system \<Rightarrow> 'f system" where
  "run_events [] st = st"
| "run_events (e # es) st = run_events es (step e st)"

text \<open>The jobs posted during an execution, in the order of their posts.\<close>

fun posted :: "'f event list \<Rightarrow> 'f job list" where
  "posted [] = []"
| "posted (ev_post j # es) = j # posted es"
| "posted (ev_stop # es) = posted es"
| "posted (ev_run # es) = posted es"
| "posted (ev_iterate r # es) = posted es"

section \<open>Task objects (core/task.hpp)\<close>

text \<open>
  A \<^verbatim>\<open>task<T>\<close> object has one member, the handle \<^verbatim>\<open>h_\<close>. Task objects and schedulers
  are identified by their addresses, so that \<^verbatim>\<open>this != &other\<close> can be asked; \<open>task_h\<close>
  gives the member \<^verbatim>\<open>h_\<close> of the task object at an address.
\<close>

record ('x, 't, 'f) world =
  frames :: "('x, 't) frames"
  task_h :: "nat \<Rightarrow> coroutine_handle"
  scheds :: "nat \<Rightarrow> 'f scheduler"

text \<open>\<^verbatim>\<open>bool valid() const noexcept { return static_cast<bool>(h_); }\<close>\<close>

definition valid :: "nat \<Rightarrow> ('x, 't, 'f) world \<Rightarrow> bool" where
  "valid this w = (task_h w this \<noteq> None)"

text \<open>
  \<^verbatim>\<open>void destroy() noexcept { if (h_) { h_.destroy(); h_ = {}; } }\<close>;
  the destructor \<^verbatim>\<open>~task()\<close> calls it.
\<close>

definition destroy :: "nat \<Rightarrow> ('x, 't, 'f) world \<Rightarrow> ('x, 't, 'f) world" where
  "destroy this w =
     (case task_h w this of
        None \<Rightarrow> w
      | Some h \<Rightarrow> w\<lparr>frames := coroutine_destroy h (frames w),
                     task_h := (task_h w)(this := None)\<rparr>)"

text \<open>
  \<^verbatim>\<open>
  void start(scheduler &sched) && noexcept {
    if (!h_) return;
    h_.promise().detached = true;
    sched.post(std::coroutine_handle<>(h_));
    h_ = {};
  }
  \<close>
  Writing the promise of a frame that is no longer alive has no defined behaviour in C++;
  here it writes nothing.
\<close>

definition start :: "nat \<Rightarrow> nat \<Rightarrow> ('x, 't, 'f) world \<Rightarrow> ('x, 't, 'f) world" where
  "start this sch w =
     (case task_h w this of
        None \<Rightarrow> w
      | Some h \<Rightarrow>
          w\<lparr>frames := (case frames w h of
                          None \<Rightarrow> frames w
                        | Some p \<Rightarrow> (frames w)(h \<mapsto> p\<lparr>detached := True\<rparr>)),
            scheds := (scheds w)(sch := post_handle (Some h) (scheds w sch)),
            task_h := (task_h w)(this := None)\<rparr>)"

text \<open>
  \<^verbatim>\<open>
  task &operator=(task &&other) noexcept {
    if (this != &other) { destroy(); h_ = other.h_; other.h_ = {}; }
    return *this;
  }
  \<close>
  (the same text in \<^verbatim>\<open>task<T>\<close> and in \<^verbatim>\<open>task<void>\<close>).
\<close>

definition move_assign :: "nat \<Rightarrow> nat \<Rightarrow> ('x, 't, 'f) world \<Rightarrow> ('x, 't, 'f) world" where
  "move_assign this other w =
     (if this \<noteq> other then
        (let w1 = destroy this w;
             w2 = w1\<lparr>task_h := (task_h w1)(this := task_h w1 other)\<rparr>
         in w2\<lparr>task_h := (task_h w2)(other := None)\<rparr>)
      else w)"

section \<open>Cancellation (core/cancel.hpp)\<close>

text \<open>
  The \<^verbatim>\<open>cancel_state\<close> objects live on the heap, shared through \<^verbatim>\<open>std::shared_ptr\<close>.
  \<open>cancelled\<close> gives the member \<^verbatim>\<open>cancelled_\<close> of the state at an address; the addresses
  below \<open>allocated\<close> have been handed out by \<^verbatim>\<open>std::make_shared\<close>.
\<close>

record cancel_heap =
  cancelled :: "nat \<Rightarrow> bool"
  allocated :: nat

text \<open>\<^verbatim>\<open>cancelled_.store(true, std::memory_order_release)\<close>\<close>

definition state_request_cancel :: "nat \<Rightarrow> cancel_heap \<Rightarrow> cancel_heap" where
  "state_request_cancel a ch = ch\<lparr>cancelled := (cancelled ch)(a := True)\<rparr>"

text \<open>\<^verbatim>\<open>return cancelled_.load(std::memory_order_acquire)\<close>\<close>

definition state_is_cancelled :: "nat \<Rightarrow> cancel_heap \<Rightarrow> bool" where
  "state_is_cancelled a ch = cancelled ch a"

text \<open>
  A token and a source each hold one \<^verbatim>\<open>std::shared_ptr<cancel_state> st_\<close>, which may be
  null.
\<close>

datatype cancel_token = cancel_token "nat option"

datatype cancel_source = cancel_source "nat option"

fun can_cancel :: "cancel_token \<Rightarrow> bool" where
  "can_cancel (cancel_token st) = (st \<noteq> None)"

text \<open>\<^verbatim>\<open>return st_ ? st_->is_cancelled() : false;\<close>\<close>

fun token_is_cancelled :: "cancel_token \<Rightarrow> cancel_heap \<Rightarrow> bool" where
  "token_is_cancelled (cancel_token st) ch =
     (case st of None \<Rightarrow> False | Some a \<Rightarrow> state_is_cancelled a ch)"

text \<open>
  \<^verbatim>\<open>cancel_source() : st_(std::make_shared<cancel_state>()) {}\<close>: a new state, whose
  flag is initialised to false by \<^verbatim>\<open>std::atomic<bool> cancelled_{false}\<close>.
\<close>

definition cancel_source_new :: "cancel_heap \<Rightarrow> cancel_source \<times> cancel_heap" where
  "cancel_source_new ch =
     (cancel_source (Some (allocated ch)),
      ch\<lparr>cancelled := (cancelled ch)(allocated ch := False),
         allocated := Suc (allocated ch)\<rparr>)"

text \<open>\<^verbatim>\<open>cancel_token token() const noexcept { return cancel_token{st_}; }\<close>\<close>

fun token :: "cancel_source \<Rightarrow> cancel_token" where
  "token (cancel_source st) = cancel_token st"

text \<open>\<^verbatim>\<open>void request_cancel() noexcept { if (st_) st_->request_cancel(); }\<close>\<close>

fun request_cancel :: "cancel_source \<Rightarrow> cancel_heap \<Rightarrow> cancel_heap" where
  "request_cancel (cancel_source st) ch =
     (case st of None \<Rightarrow> ch | Some a \<Rightarrow> state_request_cancel a ch)"

fun source_is_cancelled :: "cancel_source \<Rightarrow> cancel_heap \<Rightarrow> bool" where
  "source_is_cancelled (cancel_source st) ch =
     (case st of None \<Rightarrow> False | Some a \<Rightarrow> state_is_cancelled a ch)"

text \<open>
  The operations of the three classes that write the heap of cancel states: constructing
  a source and requesting cancellation through a source (\<^verbatim>\<open>token()\<close>, the copies of a token
  and the \<^verbatim>\<open>is_cancelled\<close> and \<^verbatim>\<open>can_cancel\<close> queries write nothing).
\<close>

datatype cancel_op = op_new_source | op_request_cancel cancel_source

fun apply_op :: "cancel_op \<Rightarrow> cancel_heap \<Rightarrow> cancel_heap" where
  "apply_op op_new_source ch = snd (cancel_source_new ch)"
| "apply_op (op_request_cancel src) ch = request_cancel src ch"

fun apply_ops :: "cancel_op list \<Rightarrow> cancel_heap \<Rightarrow> cancel_heap" where
  "apply_ops [] ch = ch"
| "apply_ops (c # cs) ch = apply_ops cs (apply_op c ch)"

section \<open>Thread pool submission (core/thread_pool.hpp)\<close>

text \<open>
  The awaitable of \<^verbatim>\<open>submit(fn, ct)\<close>: the token, the \<^verbatim>\<open>result_store<R>\<close> (one
  \<^verbatim>\<open>std::optional<R>\<close>) and the captured exception. It is built as
  \<^verbatim>\<open>awaitable{this, std::move(ct), std::forward<Fn>(fn)}\<close>, the last two members empty.
\<close>

record ('x, 'r) awaitable =
  ct :: cancel_token
  store :: "'r option"
  ex :: "'x exception_ptr"

definition awaitable_init :: "cancel_token \<Rightarrow> ('x, 'r) awaitable" where
  "awaitable_init tk = \<lparr>ct = tk, store = None, ex = None\<rparr>"

text \<open>What the wrapper closure does besides writing the awaitable, in order.\<close>

datatype action = invoke_fn | ctx_post coroutine_handle

text \<open>
  The closure that \<^verbatim>\<open>await_suspend(h)\<close> enqueues, as the worker runs it:
  \<^verbatim>\<open>
  try {
    if (ct.is_cancelled()) throw std::system_error(cancelled_ec());
    R r = fn(); store.set(std::move(r));
  } catch (...) { ex = std::current_exception(); }
  pool->ctx_post(h);
  \<close>
  The user closure \<^verbatim>\<open>fn\<close> acts on whatever it captured (a state of type \<open>'w\<close>) and either
  throws or returns a result.
\<close>

definition pool_job ::
  "('w \<Rightarrow> ('x exn + 'r) \<times> 'w) \<Rightarrow> coroutine_handle \<Rightarrow> cancel_heap
     \<Rightarrow> ('x, 'r) awaitable \<Rightarrow> 'w \<Rightarrow> ('x, 'r) awaitable \<times> 'w \<times> action list" where
  "pool_job fn h ch aw w =
     (if token_is_cancelled (ct aw) ch
      then (aw\<lparr>ex := Some (system_error cancelled_ec)\<rparr>, w, [ctx_post h])
      else (case fn w of
              (Inl e, w') \<Rightarrow> (aw\<lparr>ex := Some e\<rparr>, w', [invoke_fn, ctx_post h])
            | (Inr r, w') \<Rightarrow> (aw\<lparr>store := Some r\<rparr>, w', [invoke_fn, ctx_post h])))"

text \<open>
  \<^verbatim>\<open>R await_resume() { if (ex) std::rethrow_exception(ex); return store.take(); }\<close>
  with \<^verbatim>\<open>R take() { return std::move(*value); }\<close>.
\<close>

definition pool_await_resume :: "('x, 'r) awaitable \<Rightarrow> ('x, 'r) resumed" where
  "pool_await_resume aw =
     (case ex aw of
        Some e \<Rightarrow> thrown e
      | None \<Rightarrow> (case store aw of None \<Rightarrow> no_value | Some r \<Rightarrow> xvalue r))"

section \<open>Network operation awaitable (asio_awaitable)\<close>

text \<open>
  The members of \<^verbatim>\<open>asio_awaitable<Starter, T>\<close> that \<^verbatim>\<open>await_resume\<close> reads: the token
  \<^verbatim>\<open>ct\<close>, the result \<^verbatim>\<open>res\<close> (an error code and, for \<^verbatim>\<open>T\<close> other than void, an optional
  value) and the captured exception \<^verbatim>\<open>ex\<close>.
\<close>

record ('x, 't) asio_awaitable =
  net_ct :: cancel_token
  res_ec :: error_code
  res_value :: "'t option"
  net_ex :: "'x exception_ptr"

text \<open>
  A new awaitable: \<^verbatim>\<open>asio_result<T> res{}\<close> holds the default error code (value 0 of the
  system category) and no value, and \<^verbatim>\<open>ex\<close> is null.
\<close>

definition asio_awaitable_init :: "cancel_token \<Rightarrow> ('x, 't) asio_awaitable" where
  "asio_awaitable_init tk =
     \<lparr>net_ct = tk, res_ec = error_code 0 system_category, res_value = None, net_ex = None\<rparr>"

text \<open>
  The completion callback that \<^verbatim>\<open>await_suspend\<close> hands to the starter, called with an
  error code and the result:
  \<^verbatim>\<open>
  res.ec = ec;
  if constexpr (!std::is_same_v<T, void>) { if (!ec) res.value.emplace(static_cast<T>(args...)); }
  ctx->post([h]{ if (h) h.resume(); });
  \<close>
  The result is the awaitable and the jobs posted to the context.
\<close>

definition asio_callback ::
  "coroutine_handle \<Rightarrow> error_code \<Rightarrow> 't \<Rightarrow> ('x, 't) asio_awaitable
     \<Rightarrow> ('x, 't) asio_awaitable \<times> 'f job list" where
  "asio_callback h e v aw =
     (aw\<lparr>res_ec := e, res_value := (if \<not> ec_set e then Some v else res_value aw)\<rparr>,
      [resume_handle h])"

text \<open>
  The reactor-side starter is a collaborator. What one call of it does, as far as
  \<^verbatim>\<open>await_suspend\<close> can tell: it may invoke the completion callback before it comes back
  (\<open>calls_back\<close>, with the error code and the result it passes; otherwise the reactor
  invokes the callback later, on its own thread), and it may come back by throwing
  (\<open>throws\<close>).
\<close>

record ('x, 't) starter_run =
  calls_back :: "(error_code \<times> 't) option"
  throws :: "'x exn option"

text \<open>
  \<^verbatim>\<open>
  void await_suspend(std::coroutine_handle<> h) {
    if (ct.is_cancelled()) { ctx->post([h]{ if (h) h.resume(); }); return; }
    try { starter(callback); }
    catch (...) { ex = std::current_exception(); ctx->post([h]{ if (h) h.resume(); }); }
  }
  \<close>
  The result is the awaitable, the jobs posted to the context in order, and whether the
  starter was called.
\<close>

definition asio_await_suspend ::
  "('x, 't) starter_run \<Rightarrow> coroutine_handle \<Rightarrow> cancel_heap \<Rightarrow> ('x, 't) asio_awaitable
     \<Rightarrow> ('x, 't) asio_awaitable \<times> 'f job list \<times> bool" where
  "asio_await_suspend sr h ch aw =
     (if token_is_cancelled (net_ct aw) ch then (aw, [resume_handle h], False)
      else (case (case calls_back sr of
                    None \<Rightarrow> (aw, [])
                  | Some (c, v) \<Rightarrow> asio_callback h c v aw) of
              (aw1, posts1) \<Rightarrow>
                (case throws sr of
                   None \<Rightarrow> (aw1, posts1, True)
                 | Some e \<Rightarrow> (aw1\<lparr>net_ex := Some e\<rparr>, posts1 @ [resume_handle h], True))))"

text \<open>
  \<^verbatim>\<open>
  T await_resume() {
    if (ct.is_cancelled()) throw std::system_error(cnerium::core::cancelled_ec());
    if (ex) std::rethrow_exception(ex);
    if (res.ec) throw to_system_error(res.ec);
    if constexpr (std::is_same_v<T, void>) return; else return std::move(*res.value);
  }
  \<close>
  with \<^verbatim>\<open>to_system_error(ec) { return std::system_error(ec); }\<close>.
\<close>

definition asio_await_resume :: "cancel_heap \<Rightarrow> ('x, 't) asio_awaitable \<Rightarrow> ('x, 't) resumed" where
  "asio_await_resume ch aw =
     (if token_is_cancelled (net_ct aw) ch then thrown (system_error cancelled_ec)
      else (case net_ex aw of
              Some e \<Rightarrow> thrown e
            | None \<Rightarrow>
                if ec_set (res_ec aw) then thrown (system_error (res_ec aw))
                else (case res_value aw of None \<Rightarrow> no_value | Some v \<Rightarrow> xvalue v)))"

definition asio_await_resume_void ::
  "cancel_heap \<Rightarrow> ('x, unit) asio_awaitable \<Rightarrow> ('x, unit) resumed" where
  "asio_await_resume_void ch aw =
     (if token_is_cancelled (net_ct aw) ch then thrown (system_error cancelled_ec)
      else (case net_ex aw of
              Some e \<Rightarrow> thrown e
            | None \<Rightarrow>
                if ec_set (res_ec aw) then thrown (system_error (res_ec aw))
                else xvalue ()))"

section \<open>Threads and the resumption of coroutines\<close>


text \<open>
  The callables in the queue of the context's scheduler, besides the resume jobs: the
  delivery of a captured signal, posted by the signal bridge, and callables of user code.
\<close>

datatype loop_fn = deliver_signal int | user_fn nat

text \<open>
  What a piece of code that holds the handle of a suspended coroutine can do with it: post
  a job to the scheduler of the context, or call \<^verbatim>\<open>h.resume()\<close> itself, which runs the
  coroutine on the thread that executes that code.
\<close>

datatype effect = post_to_loop "loop_fn job" | resume_inline nat























text \<open>An effect list that resumes nothing inline.\<close>

fun posts_only :: "effect list \<Rightarrow> bool" where
  "posts_only [] = True"
| "posts_only (post_to_loop j # es) = posts_only es"
| "posts_only (resume_inline h # es) = False"


section \<open>Final suspension\<close>

text \<open>
  Claim C1. When a task coroutine finishes its body, the final-suspension step selects:
  with a continuation recorded, control is transferred to that continuation (and the
  frame stays); otherwise, with the detached flag set, the frame is destroyed; otherwise
  the frame stays suspended, untouched. No other frame is affected.
\<close>

theorem final_suspend_selects:
  assumes "fr h = Some p"
  shows "\<exists>t fr'. final_await_suspend h fr = Some (t, fr')
           \<and> t = (case continuation p of Some c \<Rightarrow> resume_next c | None \<Rightarrow> noop_coroutine)
           \<and> fr' h = (if continuation p = None \<and> detached p then None else Some p)
           \<and> (\<forall>a. a \<noteq> h \<longrightarrow> fr' a = fr a)"
  using assms
  by (cases "continuation p")
     (simp_all add: final_await_suspend_def coroutine_destroy_def)

theorem final_suspend_selects_witness:
  "(\<exists>t fr'. final_await_suspend 0
        [0 \<mapsto> (promise_init :: (unit, int) promise_value)\<lparr>continuation := Some 7\<rparr>]
        = Some (t, fr') \<and> t = resume_next 7 \<and> fr' 0 \<noteq> None)
   \<and> (\<exists>t fr'. final_await_suspend 0
        [0 \<mapsto> (promise_init :: (unit, int) promise_value)\<lparr>detached := True\<rparr>]
        = Some (t, fr') \<and> t = noop_coroutine \<and> fr' 0 = None)
   \<and> (\<exists>t fr'. final_await_suspend 0
        [0 \<mapsto> (promise_init :: (unit, int) promise_value)]
        = Some (t, fr') \<and> t = noop_coroutine \<and> fr' 0 = Some promise_init)"
proof -
  let ?pa = "(promise_init :: (unit, int) promise_value)\<lparr>continuation := Some 7\<rparr>"
  let ?pb = "(promise_init :: (unit, int) promise_value)\<lparr>detached := True\<rparr>"
  let ?pc = "promise_init :: (unit, int) promise_value"
  have a: "[0 \<mapsto> ?pa] (0::nat) = Some ?pa" by simp
  have b: "[0 \<mapsto> ?pb] (0::nat) = Some ?pb" by simp
  have c: "[0 \<mapsto> ?pc] (0::nat) = Some ?pc" by simp
  from final_suspend_selects [of "[0 \<mapsto> ?pa]" 0 ?pa, OF a]
    final_suspend_selects [of "[0 \<mapsto> ?pb]" 0 ?pb, OF b]
    final_suspend_selects [of "[0 \<mapsto> ?pc]" 0 ?pc, OF c]
  show ?thesis
    by (auto simp: promise_init_def)
qed

section \<open>Awaiting a task\<close>

text \<open>
  Claim C2. When the awaited coroutine left its body with an uncaught failure \<open>F\<close>
  (recorded by \<^verbatim>\<open>unhandled_exception\<close>), \<^verbatim>\<open>await_resume\<close> ends by throwing \<open>F\<close>, for
  value tasks and for void tasks alike: one call, one throw. Otherwise, for a result type
  other than void, \<^verbatim>\<open>await_resume\<close> returns the object that \<^verbatim>\<open>return_value\<close> stored in
  the promise's optional, as an xvalue of that object. Along a whole await (the awaiter
  \<open>c\<close> suspends on the frame \<open>h\<close>, the body of \<open>h\<close> ends, \<open>h\<close> reaches its final
  suspension) control returns to \<open>c\<close>, whose \<^verbatim>\<open>await_resume\<close> then reads that outcome
  from the promise of \<open>h\<close>.
\<close>

theorem await_resume_rethrows_or_moves:
  "await_resume (finish_body (uncaught F) p) = thrown F
   \<and> await_resume_void (finish_body (uncaught F) pv) = thrown F
   \<and> (exception p = None \<longrightarrow> await_resume (finish_body (co_return v) p) = xvalue v)
   \<and> (fr h = Some p \<and> exception p = None \<longrightarrow>
        (\<exists>fr1 fr2 p2.
            task_await_suspend h (Some c) fr = Some (resume_next h, fr1)
          \<and> complete h b fr1 = Some (resume_next c, fr2)
          \<and> fr2 h = Some p2
          \<and> await_resume p2 = (case b of co_return r \<Rightarrow> xvalue r | uncaught E \<Rightarrow> thrown E)))"
  by (cases b)
     (simp_all add: await_resume_def await_resume_void_def unhandled_exception_def
        return_value_def task_await_suspend_def complete_def final_await_suspend_def)

theorem await_resume_rethrows_or_moves_witness:
  "await_resume (finish_body (uncaught (user_exception ''boom''))
       (promise_init :: (string, int) promise_value)) = thrown (user_exception ''boom'')
   \<and> await_resume (finish_body (co_return 42)
       (promise_init :: (string, int) promise_value)) = xvalue 42
   \<and> (\<exists>fr1 fr2 p2.
          task_await_suspend 0 (Some 1) [0 \<mapsto> (promise_init :: (string, int) promise_value)]
            = Some (resume_next 0, fr1)
        \<and> complete 0 (co_return 42) fr1 = Some (resume_next 1, fr2)
        \<and> fr2 0 = Some p2
        \<and> await_resume p2 = xvalue 42)"
proof -
  let ?p = "promise_init :: (string, int) promise_value"
  have h: "exception ?p = None"
    by (simp add: promise_init_def)
  have f: "[0 \<mapsto> ?p] (0::nat) = Some ?p"
    by simp
  from await_resume_rethrows_or_moves
         [of "user_exception ''boom''" ?p promise_init 42 "[0 \<mapsto> ?p]" 0 1 "co_return 42"] h f
  show ?thesis by simp
qed

section \<open>Scheduling order\<close>

lemma posted_append: "posted (es @ es') = posted es @ posted es'"
  by (induction es rule: posted.induct) simp_all

lemma run_events_append: "run_events (es @ es') st = run_events es' (run_events es st)"
  by (induction es arbitrary: st) simp_all

lemma step_queue_invariant:
  "executed (step e st) @ q (sched (step e st)) = executed st @ q (sched st) @ posted [e]"
proof (cases e)
  case (ev_iterate r)
  then show ?thesis
    by (cases "q (sched st)"; cases r) (simp_all add: run_fetch_def)
qed (simp_all add: post_def stop_def)

lemma run_events_queue_invariant:
  "executed (run_events es st) @ q (sched (run_events es st))
     = executed st @ q (sched st) @ posted es"
proof (induction es arbitrary: st)
  case Nil
  then show ?case by simp
next
  case (Cons e es)
  have "posted (e # es) = posted [e] @ posted es"
    using posted_append [of "[e]" es] by simp
  then show ?case
    using Cons.IH [of "step e st"] step_queue_invariant [of e st] by simp
qed

lemma executed_is_posted_prefix:
  assumes "n < length (executed (run_events es system_init))"
  shows "executed (run_events es system_init) ! n = posted es ! n"
proof -
  have "executed (run_events es system_init) @ q (sched (run_events es system_init)) = posted es"
    using run_events_queue_invariant [of es system_init]
    by (simp add: system_init_def scheduler_init_def)
  then have "posted es ! n
      = (executed (run_events es system_init) @ q (sched (run_events es system_init))) ! n"
    by simp
  with assms show ?thesis by (simp add: nth_append)
qed

lemma iterate_pops_front:
  assumes "in_run st" and "q (sched st) = j # js"
  shows "executed (step (ev_iterate r) st) = executed st @ [j]
           \<and> q (sched (step (ev_iterate r) st)) = js"
  using assms by (cases r) (simp_all add: run_fetch_def)

lemma drain_iterations:
  assumes "in_run st"
  shows "run_events (replicate (length (q (sched st))) (ev_iterate job_returns)) st
           = st\<lparr>sched := (sched st)\<lparr>q := []\<rparr>, executed := executed st @ q (sched st)\<rparr>"
  using assms
proof (induction "q (sched st)" arbitrary: st)
  case Nil
  then show ?case by simp
next
  case (Cons j js)
  let ?st1 = "st\<lparr>sched := (sched st)\<lparr>q := js\<rparr>, executed := executed st @ [j]\<rparr>"
  have s1: "step (ev_iterate job_returns) st = ?st1"
    using Cons.hyps(2) [symmetric] Cons.prems by (simp add: run_fetch_def)
  have "run_events (replicate (length (q (sched ?st1))) (ev_iterate job_returns)) ?st1
          = ?st1\<lparr>sched := (sched ?st1)\<lparr>q := []\<rparr>, executed := executed ?st1 @ q (sched ?st1)\<rparr>"
    using Cons.hyps(1) [of ?st1] Cons.prems by simp
  then show ?case
    using s1 Cons.hyps(2) [symmetric] by simp
qed

lemma drain_executes_posted:
  assumes "in_run (run_events es system_init)"
  shows "executed (run_events
            (replicate (length (q (sched (run_events es system_init)))) (ev_iterate job_returns))
            (run_events es system_init)) = posted es"
proof -
  let ?st = "run_events es system_init"
  have "executed ?st @ q (sched ?st) = posted es"
    using run_events_queue_invariant [of es system_init]
    by (simp add: system_init_def scheduler_init_def)
  then show ?thesis
    using drain_iterations [OF assms] by simp
qed

text \<open>
  Claim C4. Take any execution that starts from a new scheduler and in which a job \<open>A\<close>
  is posted before a job \<open>B\<close> (in the order of the lock). \<open>A\<close> is the post number \<open>i\<close> and
  \<open>B\<close> the post number \<open>k\<close> of the execution, with \<open>i < k\<close>.
  Order: whenever the loop has dequeued \<open>B\<close> (at least \<open>k + 1\<close> jobs were executed), the job
  executed at position \<open>i\<close> is \<open>A\<close> and the one at position \<open>k\<close> is \<open>B\<close>, so \<open>A\<close> was dequeued
  and executed before \<open>B\<close>.
  Progress: an iteration of a loop that is inside \<^verbatim>\<open>run()\<close> and finds a job in the queue
  pops the front job and executes it, whether or not a stop was requested; and when the
  loop is inside \<^verbatim>\<open>run()\<close> at the end of the execution, as many further iterations as there
  are pending jobs (each job returning) execute every posted job, with \<open>A\<close> at position \<open>i\<close>
  and \<open>B\<close> at position \<open>k\<close>.
\<close>

theorem fifo_dispatch:
  assumes "es = pre @ ev_post A # mid @ ev_post B # rest"
    and "i = length (posted pre)"
    and "k = i + 1 + length (posted mid)"
    and "st = run_events es system_init"
    and "st' = run_events (replicate (length (q (sched st))) (ev_iterate job_returns)) st"
  shows "i < k
     \<and> (k < length (executed st) \<longrightarrow> executed st ! i = A \<and> executed st ! k = B)
     \<and> (in_run st \<and> q (sched st) = j # js \<longrightarrow>
          executed (step (ev_iterate r) st) = executed st @ [j]
        \<and> q (sched (step (ev_iterate r) st)) = js)
     \<and> (in_run st \<longrightarrow>
          q (sched st') = [] \<and> k < length (executed st')
        \<and> executed st' ! i = A \<and> executed st' ! k = B)"
proof -
  have p: "posted es = posted pre @ A # posted mid @ B # posted rest"
    using assms(1) posted_append [of pre "ev_post A # mid @ ev_post B # rest"]
      posted_append [of mid "ev_post B # rest"] by simp
  have pi: "posted es ! i = A"
    using p assms(2) by (simp add: nth_append)
  have pk: "posted es ! k = B"
  proof -
    have "posted es = (posted pre @ A # posted mid) @ B # posted rest"
      using p by simp
    moreover have "k = length (posted pre @ A # posted mid)"
      using assms(2,3) by simp
    ultimately show ?thesis by (simp only: nth_append_length)
  qed
  have ik: "i < k" using assms(3) by simp
  have kl: "k < length (posted es)"
    using p assms(2,3) by simp
  have order: "k < length (executed st) \<longrightarrow> executed st ! i = A \<and> executed st ! k = B"
  proof
    assume k: "k < length (executed st)"
    then have "i < length (executed st)" using ik by simp
    then show "executed st ! i = A \<and> executed st ! k = B"
      using k pi pk executed_is_posted_prefix [of i es] executed_is_posted_prefix [of k es]
        assms(4) by simp
  qed
  have pop: "in_run st \<and> q (sched st) = j # js \<longrightarrow>
          executed (step (ev_iterate r) st) = executed st @ [j]
        \<and> q (sched (step (ev_iterate r) st)) = js"
    using iterate_pops_front [of st j js r] by blast
  have progress: "in_run st \<longrightarrow>
          q (sched st') = [] \<and> k < length (executed st')
        \<and> executed st' ! i = A \<and> executed st' ! k = B"
  proof
    assume r: "in_run st"
    then have "executed st' = posted es"
      using drain_executes_posted [of es] assms(4,5) by simp
    moreover have "q (sched st') = []"
      using drain_iterations [OF r] assms(5) by simp
    ultimately show "q (sched st') = [] \<and> k < length (executed st')
        \<and> executed st' ! i = A \<and> executed st' ! k = B"
      using pi pk kl by simp
  qed
  show ?thesis
    using ik order pop progress by blast
qed

theorem fifo_dispatch_witness:
  "executed (run_events
      ([ev_run] @ ev_post (callable ''A'') # [] @ ev_post (callable ''B'') # [ev_iterate job_returns])
      system_init) = [callable ''A'']
   \<and> executed (run_events (replicate 1 (ev_iterate job_returns)) (run_events
      ([ev_run] @ ev_post (callable ''A'') # [] @ ev_post (callable ''B'') # [ev_iterate job_returns])
      system_init)) ! 0 = callable ''A''
   \<and> executed (run_events (replicate 1 (ev_iterate job_returns)) (run_events
      ([ev_run] @ ev_post (callable ''A'') # [] @ ev_post (callable ''B'') # [ev_iterate job_returns])
      system_init)) ! 1 = callable ''B''"
proof -
  let ?es = "[ev_run] @ ev_post (callable ''A'') # [] @ ev_post (callable ''B'')
               # [ev_iterate job_returns] :: string event list"
  let ?st = "run_events ?es system_init"
  have r: "in_run ?st"
    by (simp add: system_init_def scheduler_init_def post_def run_fetch_def)
  have i: "0 = length (posted ([ev_run] :: string event list))" by simp
  have k: "1 = 0 + 1 + length (posted ([] :: string event list))" by simp
  from fifo_dispatch [OF refl i k refl refl] r
  show ?thesis
    by (simp add: system_init_def scheduler_init_def post_def run_fetch_def)
qed

section \<open>The stop protocol\<close>

lemma step_executed_grows: "\<exists>r. executed (step e st) = executed st @ r"
  by (cases e) (simp_all add: run_fetch_def split: list.splits job_result.splits)

lemma run_events_executed_grows: "\<exists>r. executed (run_events es st) = executed st @ r"
proof (induction es arbitrary: st)
  case Nil
  then show ?case by simp
next
  case (Cons e es)
  obtain r1 where "executed (step e st) = executed st @ r1"
    using step_executed_grows by blast
  moreover obtain r2 where "executed (run_events es (step e st)) = executed (step e st) @ r2"
    using Cons.IH by blast
  ultimately show ?case by simp
qed

lemma step_leaves_run:
  assumes "in_run st" and "\<not> in_run (step e st)"
  shows "\<exists>r. e = ev_iterate r
           \<and> (q (sched st) = [] \<and> stop_requested (sched st) \<and> executed (step e st) = executed st
                \<or> q (sched st) \<noteq> [] \<and> r = job_throws)"
  using assms
  by (cases e)
     (auto simp: post_def stop_def run_fetch_def split: list.splits if_splits job_result.splits)

lemma run_events_leaves_run:
  assumes "in_run st" and "\<not> in_run (run_events es st)"
    and "ev_iterate job_throws \<notin> set es"
  shows "\<exists>r. executed (run_events es st) = executed st @ q (sched st) @ r"
  using assms
proof (induction es arbitrary: st)
  case Nil
  then show ?case by simp
next
  case (Cons e es)
  have nt: "e \<noteq> ev_iterate job_throws" and nts: "ev_iterate job_throws \<notin> set es"
    using Cons.prems(3) by auto
  show ?case
  proof (cases "in_run (step e st)")
    case True
    then obtain r where "executed (run_events es (step e st))
        = executed (step e st) @ q (sched (step e st)) @ r"
      using Cons.IH [of "step e st"] Cons.prems(2) nts by auto
    then have "executed (run_events (e # es) st) = executed st @ q (sched st) @ posted [e] @ r"
      using step_queue_invariant [of e st] by (simp flip: append_assoc)
    then show ?thesis by blast
  next
    case False
    then have "q (sched st) = []" and "executed (step e st) = executed st"
      using step_leaves_run [OF Cons.prems(1), of e] nt by blast+
    then show ?thesis
      using run_events_executed_grows [of es "step e st"] by simp
  qed
qed

text \<open>
  Claim C5, as stated, fails on the code: a job that throws ends \<^verbatim>\<open>run()\<close> at once.
  Jobs \<open>A\<close> and \<open>B\<close> are posted, a stop is requested, the loop thread enters \<^verbatim>\<open>run()\<close>,
  pops \<open>A\<close>, and \<open>A\<close> throws: the loop thread has left \<^verbatim>\<open>run()\<close> while \<open>B\<close> is still in
  the queue, never executed, and \<^verbatim>\<open>running_\<close> is still true.
\<close>

theorem throwing_job_leaves_queue_counterexample:
  "\<not> in_run (run_events
        [ev_post (callable ''A''), ev_post (callable ''B''), ev_stop, ev_run, ev_iterate job_throws]
        system_init)
   \<and> q (sched (run_events
        [ev_post (callable ''A''), ev_post (callable ''B''), ev_stop, ev_run, ev_iterate job_throws]
        system_init)) = [callable ''B'']
   \<and> executed (run_events
        [ev_post (callable ''A''), ev_post (callable ''B''), ev_stop, ev_run, ev_iterate job_throws]
        system_init) = [callable ''A'']
   \<and> running (sched (run_events
        [ev_post (callable ''A''), ev_post (callable ''B''), ev_stop, ev_run, ev_iterate job_throws]
        system_init))"
  by (simp add: system_init_def scheduler_init_def post_def stop_def run_fetch_def)

text \<open>
  Claim C5, amended. \<^verbatim>\<open>stop()\<close> sets the stop flag and changes nothing else: the queue
  keeps every pending job. An iteration of the loop breaks exactly when the queue is empty
  and the stop flag is set. The loop thread leaves \<^verbatim>\<open>run()\<close> in an iteration only, and in
  one of two ways: it returns, having found the queue empty and the stop flag set, or the
  job it has just popped throws. Once a stop is requested while the loop runs, as many
  iterations as there are queued jobs, each job returning, execute all of them in order,
  and the next iteration returns from \<^verbatim>\<open>run()\<close>. In every execution in which no job
  throws (whatever other threads post or request meanwhile), when \<^verbatim>\<open>run()\<close> has been left
  every job that was in the queue has been executed. A popped job that throws ends
  \<^verbatim>\<open>run()\<close> at once: the rest of the queue stays, and \<^verbatim>\<open>running_\<close> stays as it was.
\<close>

theorem stop_drains_queue:
  "(q (stop s) = q s \<and> stop_requested (stop s) \<and> running (stop s) = running s)
   \<and> ((fst (run_fetch s) = break_loop) = (q s = [] \<and> stop_requested s))
   \<and> (in_run st \<and> \<not> in_run (step e st)
        \<longrightarrow> (\<exists>r. e = ev_iterate r
               \<and> (q (sched st) = [] \<and> stop_requested (sched st)
                    \<or> q (sched st) \<noteq> [] \<and> r = job_throws)))
   \<and> (in_run st \<and> stop_requested (sched st)
        \<longrightarrow> run_events (replicate (length (q (sched st))) (ev_iterate job_returns)
                          @ [ev_iterate r']) st
              = st\<lparr>sched := (sched st)\<lparr>q := [], running := False\<rparr>, in_run := False,
                   executed := executed st @ q (sched st)\<rparr>)
   \<and> (in_run st \<and> \<not> in_run (run_events es st) \<and> ev_iterate job_throws \<notin> set es
        \<longrightarrow> (\<exists>r. executed (run_events es st) = executed st @ q (sched st) @ r))
   \<and> (in_run st \<and> q (sched st) = j # js
        \<longrightarrow> step (ev_iterate job_throws) st
              = st\<lparr>sched := (sched st)\<lparr>q := js\<rparr>, in_run := False,
                   executed := executed st @ [j]\<rparr>)"
proof (intro conjI)
  show "q (stop s) = q s" "stop_requested (stop s)" "running (stop s) = running s"
    by (simp_all add: stop_def)
  show "(fst (run_fetch s) = break_loop) = (q s = [] \<and> stop_requested s)"
    by (cases "q s") (simp_all add: run_fetch_def)
  show "in_run st \<and> \<not> in_run (step e st)
        \<longrightarrow> (\<exists>r. e = ev_iterate r
               \<and> (q (sched st) = [] \<and> stop_requested (sched st)
                    \<or> q (sched st) \<noteq> [] \<and> r = job_throws))"
    using step_leaves_run [of st e] by blast
  show "in_run st \<and> stop_requested (sched st)
        \<longrightarrow> run_events (replicate (length (q (sched st))) (ev_iterate job_returns)
                          @ [ev_iterate r']) st
              = st\<lparr>sched := (sched st)\<lparr>q := [], running := False\<rparr>, in_run := False,
                   executed := executed st @ q (sched st)\<rparr>"
    using drain_iterations [of st]
    by (simp add: run_events_append run_fetch_def)
  show "in_run st \<and> \<not> in_run (run_events es st) \<and> ev_iterate job_throws \<notin> set es
        \<longrightarrow> (\<exists>r. executed (run_events es st) = executed st @ q (sched st) @ r)"
    using run_events_leaves_run [of st es] by blast
  show "in_run st \<and> q (sched st) = j # js
        \<longrightarrow> step (ev_iterate job_throws) st
              = st\<lparr>sched := (sched st)\<lparr>q := js\<rparr>, in_run := False,
                   executed := executed st @ [j]\<rparr>"
    by (simp add: run_fetch_def)
qed

theorem stop_drains_queue_witness:
  "run_events [ev_iterate job_returns, ev_iterate job_returns, ev_iterate job_returns]
      \<lparr>sched = stop \<lparr>q = [callable ''A'', resume_handle (Some 3)], stop_requested = False,
                       running = True\<rparr>,
       in_run = True, executed = []\<rparr>
    = \<lparr>sched = \<lparr>q = [], stop_requested = True, running = False\<rparr>,
       in_run = False, executed = [callable ''A'', resume_handle (Some 3)]\<rparr>
   \<and> step (ev_iterate job_returns)
        \<lparr>sched = \<lparr>q = [], stop_requested = True, running = True\<rparr>,
         in_run = True, executed = [callable ''A'']\<rparr>
      = \<lparr>sched = \<lparr>q = [], stop_requested = True, running = False\<rparr>,
         in_run = False, executed = [callable ''A'']\<rparr>"
proof -
  let ?st1 = "\<lparr>sched = stop \<lparr>q = [callable ''A'', resume_handle (Some 3)],
                 stop_requested = False, running = True\<rparr>,
               in_run = True, executed = []\<rparr> :: string system"
  let ?st2 = "\<lparr>sched = \<lparr>q = [], stop_requested = True, running = True\<rparr>,
               in_run = True, executed = [callable ''A'']\<rparr> :: string system"
  have h1: "in_run ?st1 \<and> stop_requested (sched ?st1)"
    by (simp add: stop_def)
  have h2: "in_run ?st2 \<and> \<not> in_run (step (ev_iterate job_returns) ?st2)"
    by (simp add: run_fetch_def)
  from stop_drains_queue [of "sched ?st1" ?st1 "ev_iterate job_returns" job_returns
          "[ev_iterate job_returns, ev_iterate job_returns, ev_iterate job_returns]"] h1
    stop_drains_queue [of "sched ?st2" ?st2 "ev_iterate job_returns" job_returns
          "[ev_iterate job_returns]"] h2
  show ?thesis
    by (simp add: stop_def run_fetch_def)
qed

section \<open>Detaching a task\<close>

text \<open>
  Claim C6. For a valid task \<open>t\<close> that owns the live frame \<open>h\<close>, \<^verbatim>\<open>start(sched)\<close> sets the
  detached flag of the promise of \<open>h\<close>, appends the job that resumes \<open>h\<close> to the queue of
  that scheduler, and leaves the task empty (\<^verbatim>\<open>valid()\<close> is false). Destroying the task
  value afterwards changes nothing: the frame is still alive. The frame is destroyed at
  its own final suspension, however its body ends; as the promise documents, this is the
  case when no continuation is recorded, that is, when the started task is not also being
  awaited.
\<close>

theorem start_detaches:
  assumes "task_h w t = Some h" and "frames w h = Some p"
  shows "frames (start t s w) h = Some (p\<lparr>detached := True\<rparr>)
     \<and> q (scheds (start t s w) s) = q (scheds w s) @ [resume_handle (Some h)]
     \<and> \<not> valid t (start t s w)
     \<and> destroy t (start t s w) = start t s w
     \<and> frames (destroy t (start t s w)) h \<noteq> None
     \<and> (continuation p = None \<longrightarrow>
          (\<exists>fr'. complete h b (frames (destroy t (start t s w))) = Some (noop_coroutine, fr')
             \<and> fr' h = None))"
proof -
  have d: "destroy t (start t s w) = start t s w"
    using assms by (simp add: destroy_def start_def)
  have f: "frames (start t s w) h = Some (p\<lparr>detached := True\<rparr>)"
    using assms by (simp add: start_def)
  have c: "continuation p = None \<Longrightarrow>
      complete h b (frames (start t s w))
        = Some (noop_coroutine, coroutine_destroy h ((frames (start t s w))(h \<mapsto> finish_body b (p\<lparr>detached := True\<rparr>))))"
    using f
    by (cases b)
       (simp_all add: complete_def final_await_suspend_def return_value_def unhandled_exception_def)
  show ?thesis
    using assms d f c
    by (auto simp: start_def valid_def post_handle_def post_def coroutine_destroy_def)
qed

theorem start_detaches_witness:
  "\<not> valid 0 (start 0 5 \<lparr>frames = [7 \<mapsto> promise_init], task_h = (\<lambda>a. if a = 0 then Some 7 else None),
        scheds = (\<lambda>a. scheduler_init)\<rparr> :: (string, int, unit) world)
   \<and> (\<exists>fr'. complete 7 (uncaught (user_exception ''boom''))
          (frames (destroy 0 (start 0 5 \<lparr>frames = [7 \<mapsto> promise_init],
              task_h = (\<lambda>a. if a = 0 then Some 7 else None),
              scheds = (\<lambda>a. scheduler_init)\<rparr> :: (string, int, unit) world)))
        = Some (noop_coroutine, fr') \<and> fr' 7 = None)"
proof -
  let ?w = "\<lparr>frames = [7 \<mapsto> promise_init], task_h = (\<lambda>a. if a = 0 then Some 7 else None),
        scheds = (\<lambda>a. scheduler_init)\<rparr> :: (string, int, unit) world"
  have h1: "task_h ?w 0 = Some 7" by simp
  have h2: "frames ?w 7 = Some promise_init" by simp
  have h3: "continuation (promise_init :: (string, int) promise_value) = None"
    by (simp add: promise_init_def)
  from start_detaches [of ?w 0 7 promise_init 5 "uncaught (user_exception ''boom'')", OF h1 h2] h3
  show ?thesis by blast
qed

section \<open>Move assignment of tasks\<close>

text \<open>
  Claim C10. Move-assigning the task object \<open>b\<close> to a distinct task object \<open>a\<close> destroys
  the frame that \<open>a\<close> owned (if any), gives \<open>a\<close> the handle of \<open>b\<close> and leaves \<open>b\<close> empty;
  every other frame, in particular the one \<open>b\<close> owned when it is not the frame of \<open>a\<close>, is
  as before, and so are the other task objects and the schedulers. A self-move-assignment
  changes nothing.
\<close>

theorem move_assign_transfers:
  "(a \<noteq> b \<longrightarrow>
      task_h (move_assign a b w) a = task_h w b
    \<and> \<not> valid b (move_assign a b w)
    \<and> (\<forall>h. task_h w a = Some h \<longrightarrow> frames (move_assign a b w) h = None)
    \<and> (\<forall>h. task_h w a \<noteq> Some h \<longrightarrow> frames (move_assign a b w) h = frames w h)
    \<and> (\<forall>c. c \<noteq> a \<and> c \<noteq> b \<longrightarrow> task_h (move_assign a b w) c = task_h w c)
    \<and> scheds (move_assign a b w) = scheds w)
   \<and> move_assign a a w = w"
  by (cases "task_h w a")
     (auto simp: move_assign_def destroy_def valid_def coroutine_destroy_def Let_def)

theorem move_assign_transfers_witness:
  "task_h (move_assign 0 1 \<lparr>frames = [7 \<mapsto> promise_init, 8 \<mapsto> promise_init],
        task_h = (\<lambda>a. if a = 0 then Some 7 else if a = 1 then Some 8 else None),
        scheds = (\<lambda>a. scheduler_init)\<rparr> :: (string, int, unit) world) 0 = Some 8
   \<and> frames (move_assign 0 1 \<lparr>frames = [7 \<mapsto> promise_init, 8 \<mapsto> promise_init],
        task_h = (\<lambda>a. if a = 0 then Some 7 else if a = 1 then Some 8 else None),
        scheds = (\<lambda>a. scheduler_init)\<rparr> :: (string, int, unit) world) 7 = None
   \<and> frames (move_assign 0 1 \<lparr>frames = [7 \<mapsto> promise_init, 8 \<mapsto> promise_init],
        task_h = (\<lambda>a. if a = 0 then Some 7 else if a = 1 then Some 8 else None),
        scheds = (\<lambda>a. scheduler_init)\<rparr> :: (string, int, unit) world) 8 = Some promise_init"
proof -
  let ?w = "\<lparr>frames = [7 \<mapsto> promise_init, 8 \<mapsto> promise_init],
        task_h = (\<lambda>a. if a = 0 then Some 7 else if a = 1 then Some 8 else None),
        scheds = (\<lambda>a. scheduler_init)\<rparr> :: (string, int, unit) world"
  have ne: "(0::nat) \<noteq> 1" by simp
  have h7: "task_h ?w 0 = Some 7" by simp
  have h8: "task_h ?w 0 \<noteq> Some 8" by simp
  from move_assign_transfers [of 0 1 ?w] ne
  have "task_h (move_assign 0 1 ?w) 0 = task_h ?w 1"
    and "\<forall>h. task_h ?w 0 = Some h \<longrightarrow> frames (move_assign 0 1 ?w) h = None"
    and "\<forall>h. task_h ?w 0 \<noteq> Some h \<longrightarrow> frames (move_assign 0 1 ?w) h = frames ?w h"
    by blast+
  with h7 h8 show ?thesis by simp
qed

section \<open>Monotonic cancellation\<close>

lemma apply_op_keeps_cancelled:
  assumes "a < allocated ch" and "cancelled ch a"
  shows "a < allocated (apply_op c ch) \<and> cancelled (apply_op c ch) a"
proof (cases c)
  case op_new_source
  then show ?thesis using assms by (simp add: cancel_source_new_def)
next
  case (op_request_cancel src)
  then show ?thesis
    using assms by (cases src) (simp add: state_request_cancel_def split: option.splits)
qed

lemma apply_op_allocated_grows: "allocated ch \<le> allocated (apply_op c ch)"
proof (cases c)
  case op_new_source
  then show ?thesis by (simp add: cancel_source_new_def)
next
  case (op_request_cancel src)
  then show ?thesis
    by (cases src) (simp add: state_request_cancel_def split: option.splits)
qed

lemma apply_ops_keeps_cancelled:
  assumes "a < allocated ch" and "cancelled ch a"
  shows "a < allocated (apply_ops cs ch) \<and> cancelled (apply_ops cs ch) a"
  using assms
proof (induction cs arbitrary: ch)
  case Nil
  then show ?case by simp
next
  case (Cons c cs)
  then show ?case
    using apply_op_keeps_cancelled [of a ch c] by simp
qed

lemma apply_ops_allocated_grows: "allocated ch \<le> allocated (apply_ops cs ch)"
proof (induction cs arbitrary: ch)
  case Nil
  then show ?case by simp
next
  case (Cons c cs)
  have "allocated ch \<le> allocated (apply_op c ch)"
    by (rule apply_op_allocated_grows)
  also have "\<dots> \<le> allocated (apply_ops cs (apply_op c ch))"
    by (rule Cons.IH)
  finally show ?case by simp
qed

text \<open>
  Claim C7. A new source and its tokens report no cancellation. Let any operations
  \<open>before\<close> happen, then \<^verbatim>\<open>request_cancel()\<close> on the source, then any operations \<open>after\<close>
  (new sources, cancellation requests through any source): the source and every token
  that shares its state report cancellation. And no operation turns a flag that is set
  back to false.
\<close>

theorem cancellation_monotonic:
  "(cancel_source_new ch = (src, ch1) \<longrightarrow>
       \<not> source_is_cancelled src ch1
     \<and> \<not> token_is_cancelled (token src) ch1
     \<and> source_is_cancelled src (apply_ops after (request_cancel src (apply_ops before ch1)))
     \<and> token_is_cancelled (token src) (apply_ops after (request_cancel src (apply_ops before ch1))))
   \<and> (a < allocated ch \<and> cancelled ch a \<longrightarrow> cancelled (apply_op c ch) a)"
proof (intro conjI impI)
  assume new: "cancel_source_new ch = (src, ch1)"
  then have src: "src = cancel_source (Some (allocated ch))"
    and al: "allocated ch < allocated ch1"
    and fl: "\<not> cancelled ch1 (allocated ch)"
    by (auto simp: cancel_source_new_def)
  show "\<not> source_is_cancelled src ch1" and "\<not> token_is_cancelled (token src) ch1"
    using src fl by (simp_all add: state_is_cancelled_def)
  let ?ch2 = "request_cancel src (apply_ops before ch1)"
  have "allocated ch < allocated (apply_ops before ch1)"
    using al apply_ops_allocated_grows [of ch1 before] by simp
  then have "allocated ch < allocated ?ch2" and "cancelled ?ch2 (allocated ch)"
    using src by (simp_all add: state_request_cancel_def)
  then have fin: "cancelled (apply_ops after ?ch2) (allocated ch)"
    using apply_ops_keeps_cancelled [of "allocated ch" ?ch2 after] by simp
  show "source_is_cancelled src (apply_ops after ?ch2)"
    and "token_is_cancelled (token src) (apply_ops after ?ch2)"
    using src fin by (simp_all add: state_is_cancelled_def)
next
  assume "a < allocated ch \<and> cancelled ch a"
  then show "cancelled (apply_op c ch) a"
    using apply_op_keeps_cancelled [of a ch c] by simp
qed

theorem cancellation_monotonic_witness:
  "\<not> token_is_cancelled (token (fst (cancel_source_new \<lparr>cancelled = (\<lambda>a. False), allocated = 0\<rparr>)))
        (snd (cancel_source_new \<lparr>cancelled = (\<lambda>a. False), allocated = 0\<rparr>))
   \<and> token_is_cancelled (token (fst (cancel_source_new \<lparr>cancelled = (\<lambda>a. False), allocated = 0\<rparr>)))
        (apply_ops [op_new_source]
          (request_cancel (fst (cancel_source_new \<lparr>cancelled = (\<lambda>a. False), allocated = 0\<rparr>))
            (apply_ops [op_new_source]
              (snd (cancel_source_new \<lparr>cancelled = (\<lambda>a. False), allocated = 0\<rparr>)))))"
proof -
  let ?ch = "\<lparr>cancelled = (\<lambda>a. False), allocated = 0\<rparr>"
  have new: "cancel_source_new ?ch = (fst (cancel_source_new ?ch), snd (cancel_source_new ?ch))"
    by simp
  from cancellation_monotonic
         [of ?ch "fst (cancel_source_new ?ch)" "snd (cancel_source_new ?ch)"
             "[op_new_source]" "[op_new_source]"] new
  show ?thesis by blast
qed

section \<open>Results of a thread pool submission\<close>

text \<open>
  Claim C8. When the worker starts the job of an awaited \<^verbatim>\<open>submit(f, t)\<close>: if the token
  reports cancellation, \<open>f\<close> is not invoked (the job only posts the handle back, whatever
  \<open>f\<close> is, and the state that \<open>f\<close> acts on is untouched) and a failure carrying the
  \<^verbatim>\<open>canceled\<close> code is stored; otherwise \<open>f\<close> is invoked once, and its result goes to the
  single-slot store, or its failure is captured. On resumption the awaiter throws the
  captured failure or returns the stored value.
\<close>

theorem pool_submit_outcome:
  "(token_is_cancelled tk ch \<longrightarrow>
       pool_job f h ch (awaitable_init tk) w
         = (\<lparr>ct = tk, store = None, ex = Some (system_error (make_error_code canceled))\<rparr>,
            w, [ctx_post h])
     \<and> pool_await_resume (fst (pool_job f h ch (awaitable_init tk) w))
         = thrown (system_error (make_error_code canceled)))
   \<and> (\<not> token_is_cancelled tk ch \<and> f w = (Inr r, w') \<longrightarrow>
       pool_job f h ch (awaitable_init tk) w
         = (\<lparr>ct = tk, store = Some r, ex = None\<rparr>, w', [invoke_fn, ctx_post h])
     \<and> pool_await_resume (fst (pool_job f h ch (awaitable_init tk) w)) = xvalue r)
   \<and> (\<not> token_is_cancelled tk ch \<and> f w = (Inl e, w') \<longrightarrow>
       pool_job f h ch (awaitable_init tk) w
         = (\<lparr>ct = tk, store = None, ex = Some e\<rparr>, w', [invoke_fn, ctx_post h])
     \<and> pool_await_resume (fst (pool_job f h ch (awaitable_init tk) w)) = thrown e)"
  by (simp add: pool_job_def pool_await_resume_def awaitable_init_def cancelled_ec_def)

theorem pool_submit_outcome_witness:
  "pool_job (\<lambda>n :: nat. (Inr (2 * n) :: string exn + nat, Suc n)) (Some 3)
       \<lparr>cancelled = (\<lambda>a. a = 0), allocated = 1\<rparr> (awaitable_init (cancel_token (Some 0))) 5
     = (\<lparr>ct = cancel_token (Some 0), store = None,
          ex = Some (system_error (error_code 4 async_category))\<rparr>, 5, [ctx_post (Some 3)])
   \<and> pool_await_resume (fst (pool_job (\<lambda>n :: nat. (Inr (2 * n) :: string exn + nat, Suc n)) (Some 3)
       \<lparr>cancelled = (\<lambda>a. a = 0), allocated = 1\<rparr> (awaitable_init (cancel_token None)) 5))
     = xvalue 10
   \<and> pool_await_resume (fst (pool_job
       (\<lambda>n :: nat. (Inl (user_exception ''boom'') :: string exn + nat, Suc n)) (Some 3)
       \<lparr>cancelled = (\<lambda>a. a = 0), allocated = 1\<rparr> (awaitable_init (cancel_token None)) 5))
     = thrown (user_exception ''boom'')"
proof -
  let ?ch = "\<lparr>cancelled = (\<lambda>a. a = 0), allocated = 1\<rparr>"
  let ?f = "\<lambda>n :: nat. (Inr (2 * n) :: string exn + nat, Suc n)"
  let ?g = "\<lambda>n :: nat. (Inl (user_exception ''boom'') :: string exn + nat, Suc n)"
  have c: "token_is_cancelled (cancel_token (Some 0)) ?ch"
    by (simp add: state_is_cancelled_def)
  have n: "\<not> token_is_cancelled (cancel_token None) ?ch"
    by simp
  have f: "?f 5 = (Inr 10, 6)" by simp
  have g: "?g 5 = (Inl (user_exception ''boom''), 6)" by simp
  from pool_submit_outcome [of "cancel_token (Some 0)" ?ch ?f "Some 3" 5 10 6 "user_exception ''boom''"] c
  have 1: "pool_job ?f (Some 3) ?ch (awaitable_init (cancel_token (Some 0))) 5
     = (\<lparr>ct = cancel_token (Some 0), store = None,
          ex = Some (system_error (make_error_code canceled))\<rparr>, 5, [ctx_post (Some 3)])"
    by blast
  from pool_submit_outcome [of "cancel_token None" ?ch ?f "Some 3" 5 10 6 "user_exception ''boom''"] n f
  have 2: "pool_await_resume (fst (pool_job ?f (Some 3) ?ch (awaitable_init (cancel_token None)) 5))
     = xvalue 10"
    by blast
  from pool_submit_outcome [of "cancel_token None" ?ch ?g "Some 3" 5 10 6 "user_exception ''boom''"] n g
  have 3: "pool_await_resume (fst (pool_job ?g (Some 3) ?ch (awaitable_init (cancel_token None)) 5))
     = thrown (user_exception ''boom'')"
    by blast
  from 1 2 3 show ?thesis by (simp add: make_error_code_def)
qed

section \<open>Results of a network operation\<close>

text \<open>
  Claim C9. \<^verbatim>\<open>await_resume\<close> of a network-operation awaitable decides in a fixed order:
  when the token reports cancellation it throws a failure carrying the \<^verbatim>\<open>canceled\<close> code;
  else, when a failure was captured while starting the operation, it rethrows that
  failure; else, when the reactor reported an error code that is set, it throws a system
  failure carrying that code; else it returns the stored value (nothing for a void
  operation). The failure of a starter that throws (whether or not it has called the
  completion callback before) and the code and value given to the completion callback
  are the ones the decision reads.
\<close>

theorem net_await_resume_priority:
  "(token_is_cancelled (net_ct aw) ch \<longrightarrow>
       asio_await_resume ch aw = thrown (system_error (make_error_code canceled)))
   \<and> (\<not> token_is_cancelled (net_ct aw) ch \<and> net_ex aw = Some e \<longrightarrow>
       asio_await_resume ch aw = thrown e)
   \<and> (\<not> token_is_cancelled (net_ct aw) ch \<and> net_ex aw = None \<and> ec_set (res_ec aw) \<longrightarrow>
       asio_await_resume ch aw = thrown (system_error (res_ec aw)))
   \<and> (\<not> token_is_cancelled (net_ct aw) ch \<and> net_ex aw = None \<and> \<not> ec_set (res_ec aw)
        \<and> res_value aw = Some v \<longrightarrow>
       asio_await_resume ch aw = xvalue v)
   \<and> (token_is_cancelled (net_ct av) ch \<longrightarrow>
       asio_await_resume_void ch av = thrown (system_error (make_error_code canceled)))
   \<and> (\<not> token_is_cancelled (net_ct av) ch \<and> net_ex av = Some e \<longrightarrow>
       asio_await_resume_void ch av = thrown e)
   \<and> (\<not> token_is_cancelled (net_ct av) ch \<and> net_ex av = None \<and> ec_set (res_ec av) \<longrightarrow>
       asio_await_resume_void ch av = thrown (system_error (res_ec av)))
   \<and> (\<not> token_is_cancelled (net_ct av) ch \<and> net_ex av = None \<and> \<not> ec_set (res_ec av) \<longrightarrow>
       asio_await_resume_void ch av = xvalue ())
   \<and> (\<not> token_is_cancelled tk ch0 \<and> \<not> token_is_cancelled tk ch \<and> throws sr = Some e \<longrightarrow>
       asio_await_resume ch
         (fst (asio_await_suspend sr h ch0 (asio_awaitable_init tk)
                 :: ('x, 't) asio_awaitable \<times> unit job list \<times> bool))
         = thrown e)
   \<and> (\<not> token_is_cancelled tk ch \<longrightarrow>
       asio_await_resume ch
         (fst (asio_callback h c v (asio_awaitable_init tk)
                 :: ('x, 't) asio_awaitable \<times> unit job list))
         = (if ec_set c then thrown (system_error c) else xvalue v))"
  by (simp add: asio_await_resume_def asio_await_resume_void_def cancelled_ec_def
        asio_await_suspend_def asio_callback_def asio_awaitable_init_def
        split: option.splits prod.splits)

theorem net_await_resume_priority_witness:
  "asio_await_resume \<lparr>cancelled = (\<lambda>a. a = 0), allocated = 1\<rparr>
       \<lparr>net_ct = cancel_token (Some 0), res_ec = error_code 104 system_category,
        res_value = Some (12 :: nat), net_ex = Some (user_exception ''boom'')\<rparr>
     = thrown (system_error (error_code 4 async_category))
   \<and> asio_await_resume \<lparr>cancelled = (\<lambda>a. a = 0), allocated = 1\<rparr>
       \<lparr>net_ct = cancel_token None, res_ec = error_code 104 system_category,
        res_value = Some (12 :: nat), net_ex = Some (user_exception ''boom'')\<rparr>
     = thrown (user_exception ''boom'')
   \<and> asio_await_resume \<lparr>cancelled = (\<lambda>a. a = 0), allocated = 1\<rparr>
       \<lparr>net_ct = cancel_token None, res_ec = error_code 104 system_category,
        res_value = Some (12 :: nat), net_ex = (None :: string exception_ptr)\<rparr>
     = thrown (system_error (error_code 104 system_category))
   \<and> asio_await_resume \<lparr>cancelled = (\<lambda>a. a = 0), allocated = 1\<rparr>
       \<lparr>net_ct = cancel_token None, res_ec = error_code 0 system_category,
        res_value = Some (12 :: nat), net_ex = (None :: string exception_ptr)\<rparr>
     = xvalue 12"
proof -
  let ?ch = "\<lparr>cancelled = (\<lambda>a. a = 0), allocated = 1\<rparr>"
  let ?a1 = "\<lparr>net_ct = cancel_token (Some 0), res_ec = error_code 104 system_category,
        res_value = Some (12 :: nat), net_ex = Some (user_exception ''boom'')\<rparr>"
  let ?a2 = "\<lparr>net_ct = cancel_token None, res_ec = error_code 104 system_category,
        res_value = Some (12 :: nat), net_ex = Some (user_exception ''boom'')\<rparr>"
  let ?a3 = "\<lparr>net_ct = cancel_token None, res_ec = error_code 104 system_category,
        res_value = Some (12 :: nat), net_ex = (None :: string exception_ptr)\<rparr>"
  let ?a4 = "\<lparr>net_ct = cancel_token None, res_ec = error_code 0 system_category,
        res_value = Some (12 :: nat), net_ex = (None :: string exception_ptr)\<rparr>"
  have c1: "token_is_cancelled (net_ct ?a1) ?ch"
    by (simp add: state_is_cancelled_def)
  have c2: "\<not> token_is_cancelled (net_ct ?a2) ?ch \<and> net_ex ?a2 = Some (user_exception ''boom'')"
    by simp
  have c3: "\<not> token_is_cancelled (net_ct ?a3) ?ch \<and> net_ex ?a3 = None \<and> ec_set (res_ec ?a3)"
    by simp
  have c4: "\<not> token_is_cancelled (net_ct ?a4) ?ch \<and> net_ex ?a4 = None \<and> \<not> ec_set (res_ec ?a4)
      \<and> res_value ?a4 = Some 12"
    by simp
  have 1: "asio_await_resume ?ch ?a1 = thrown (system_error (make_error_code canceled))"
    using net_await_resume_priority [of ?a1 ?ch] c1 by blast
  have 2: "asio_await_resume ?ch ?a2 = thrown (user_exception ''boom'')"
    using net_await_resume_priority [of ?a2 ?ch "user_exception ''boom''"] c2 by blast
  have 3: "asio_await_resume ?ch ?a3 = thrown (system_error (res_ec ?a3))"
    using net_await_resume_priority [of ?a3 ?ch] c3 by blast
  have 4: "asio_await_resume ?ch ?a4 = xvalue 12"
    using net_await_resume_priority [of ?a4 ?ch _ 12] c4 by blast
  from 1 2 3 4 show ?thesis by (simp add: make_error_code_def)
qed

section \<open>Resumption on the loop thread\<close>


lemma posts_only_append: "posts_only (es @ es') = (posts_only es \<and> posts_only es')"
  by (induction es rule: posts_only.induct) simp_all
















end
